theory Spec2Isabelle
  imports Main "HOL-Library.AList"
begin

section \<open>JavaScript values and the helpers the store relies on\<close>

text \<open>
  The store is a TypeScript class over the AWS S3 client. Documents are JavaScript objects
  that are written with \<^verbatim>\<open>JSON.stringify\<close> and read with \<^verbatim>\<open>JSON.parse\<close>, so
  a document is modelled as a JSON value. An object is the list of its own properties in
  property order; numbers are integers.
\<close>

datatype json =
    JNull
  | JBool bool
  | JNum int
  | JStr string
  | JArr "json list"
  | JObj "(string \<times> json) list"

text \<open>Errors are values. \<^verbatim>\<open>invariant(cond, msg)\<close> of tiny-invariant throws an
  \<^verbatim>\<open>Error\<close> carrying the message; \<^verbatim>\<open>JSON.parse\<close> throws a
  \<^verbatim>\<open>SyntaxError\<close>; the storage service rejects a read of a missing key.\<close>

datatype error =
    InvariantFailed string
  | SyntaxError
  | NoSuchKey
  | MalformedRequest

text \<open>\<^verbatim>\<open>invariant(x, msg)\<close> on a value of type \<^verbatim>\<open>string | undefined\<close>: it
  passes when the value is truthy, that is a non-empty string, and narrows it to a string.\<close>

definition invariant :: "string option \<Rightarrow> string \<Rightarrow> error + string" where
  "invariant v msg =
     (case v of
        None \<Rightarrow> Inl (InvariantFailed msg)
      | Some s \<Rightarrow> if s = [] then Inl (InvariantFailed msg) else Inr s)"

text \<open>A value of type \<^verbatim>\<open>string | undefined\<close> inside a template literal.\<close>

fun template :: "string option \<Rightarrow> string" where
  "template None = ''undefined''"
| "template (Some s) = s"

text \<open>Truthiness of a JSON value (\<^verbatim>\<open>!document.id\<close> negates it).\<close>

fun truthy :: "json \<Rightarrow> bool" where
  "truthy JNull = False"
| "truthy (JBool b) = b"
| "truthy (JNum n) = (n \<noteq> 0)"
| "truthy (JStr s) = (s \<noteq> [])"
| "truthy (JArr xs) = True"
| "truthy (JObj fs) = True"

text \<open>Decimal digits of a natural number, for \<^verbatim>\<open>String(n)\<close>.\<close>

fun digits :: "nat \<Rightarrow> string" where
  "digits n =
     (if n < 10 then [char_of (48 + n)]
      else digits (n div 10) @ [char_of (48 + n mod 10)])"

declare digits.simps [simp del]

definition join :: "string \<Rightarrow> string list \<Rightarrow> string" where
  "join sep xs = concat (case xs of [] \<Rightarrow> [] | y # ys \<Rightarrow> y # map (\<lambda>z. sep @ z) ys)"

text \<open>The string a value turns into inside a template literal (\<^verbatim>\<open>`${id}/data.json`\<close>):
  a string is itself, an array joins its elements with commas (null elements as the
  empty string), any other object is \<^verbatim>\<open>[object Object]\<close>.\<close>

fun toString :: "json \<Rightarrow> string" where
  "toString JNull = ''null''"
| "toString (JBool b) = (if b then ''true'' else ''false'')"
| "toString (JNum n) = (if n < 0 then CHR ''-'' # digits (nat (- n)) else digits (nat n))"
| "toString (JStr s) = s"
| "toString (JArr xs) = join '','' (map (\<lambda>x. if x = JNull then [] else toString x) xs)"
| "toString (JObj fs) = ''[object Object]''"

text \<open>\<^verbatim>\<open>s.split(c)\<close> for a one-character separator: never empty, \<^verbatim>\<open>"".split(c)\<close>
  is the list holding the empty string.\<close>

fun split :: "char \<Rightarrow> string \<Rightarrow> string list" where
  "split c [] = [[]]"
| "split c (x # xs) =
     (if x = c then [] # split c xs
      else (case split c xs of [] \<Rightarrow> [[x]] | w # ws \<Rightarrow> (x # w) # ws))"

text \<open>\<^verbatim>\<open>xs[i]\<close>: \<^verbatim>\<open>undefined\<close> out of range.\<close>

definition index :: "'a list \<Rightarrow> nat \<Rightarrow> 'a option" where
  "index xs i = (if i < length xs then Some (xs ! i) else None)"

text \<open>\<^verbatim>\<open>s.replace(pat, rep)\<close> with a string pattern: only the first occurrence of
  \<open>pat\<close>, wherever it is, is replaced. (The store only calls it with the replacement
  \<^verbatim>\<open>""\<close>, so the \<^verbatim>\<open>$\<close> patterns of a replacement string play no role.)\<close>

fun starts_with :: "string \<Rightarrow> string \<Rightarrow> bool" where
  "starts_with [] s = True"
| "starts_with (p # ps) [] = False"
| "starts_with (p # ps) (x # xs) = (p = x \<and> starts_with ps xs)"

fun replace :: "string \<Rightarrow> string \<Rightarrow> string \<Rightarrow> string" where
  "replace pat rep [] = (if pat = [] then rep else [])"
| "replace pat rep (x # xs) =
     (if starts_with pat (x # xs) then rep @ drop (length pat) (x # xs)
      else x # replace pat rep xs)"

text \<open>\<^verbatim>\<open>set.add(x)\<close> on a \<^verbatim>\<open>Set\<close>, kept as the list of its elements in
  insertion order (the order \<^verbatim>\<open>[...set]\<close> yields).\<close>

definition set_add :: "'a \<Rightarrow> 'a list \<Rightarrow> 'a list" where
  "set_add x xs = (if x \<in> set xs then xs else xs @ [x])"

section \<open>Configuration resolution (src/util.ts)\<close>

record config_args =
  awsRegion :: "string option"
  awsAccessKeyId :: "string option"
  awsSecretAccessKey :: "string option"

record process_env =
  S3_DB_REGION :: "string option"
  S3_DB_ACCESS_KEY_ID :: "string option"
  S3_DB_SECRET_ACCESS_KEY :: "string option"

record credentials =
  accessKeyId :: string
  secretAccessKey :: string

record S3ClientConfig =
  region :: string
  credentials :: credentials

text \<open>A destructuring default \<^verbatim>\<open>{ x = d } = obj\<close>: the default is taken exactly when
  the property is \<^verbatim>\<open>undefined\<close>.\<close>

definition default_to :: "'a option \<Rightarrow> 'a option \<Rightarrow> 'a option" where
  "default_to v d = (case v of None \<Rightarrow> d | Some x \<Rightarrow> Some x)"

definition credentials_message :: string where
  "credentials_message =
     ''AWS credentials are missing or invalid. Please ensure that awsRegion, awsAccessKeyId, and awsSecretAccessKey are provided.''"

text \<open>\<^verbatim>\<open>getS3dbConfig(args?)\<close>. The process environment is an argument; the function
  touches nothing else.\<close>

definition getS3dbConfig :: "process_env \<Rightarrow> config_args option \<Rightarrow> error + S3ClientConfig" where
  "getS3dbConfig env args =
     (let a = (case args of
                 None \<Rightarrow> \<lparr>awsRegion = None, awsAccessKeyId = None, awsSecretAccessKey = None\<rparr>
               | Some x \<Rightarrow> x);
          r = default_to (awsRegion a) (S3_DB_REGION env);
          k = default_to (awsAccessKeyId a) (S3_DB_ACCESS_KEY_ID env);
          s = default_to (awsSecretAccessKey a) (S3_DB_SECRET_ACCESS_KEY env)
      in case (r, k, s) of
           (Some r', Some k', Some s') \<Rightarrow>
             if r' \<noteq> [] \<and> k' \<noteq> [] \<and> s' \<noteq> []
             then Inr \<lparr>region = r',
                       credentials = \<lparr>accessKeyId = k', secretAccessKey = s'\<rparr>\<rparr>
             else Inl (InvariantFailed credentials_message)
         | _ \<Rightarrow> Inl (InvariantFailed credentials_message))"

section \<open>The storage service\<close>

text \<open>
  The object store is the external collaborator. Its state is the list of bucket names and
  the stored objects, keyed by bucket and key; \<open>requests\<close> records every request the
  client has sent, in order. The service answers every request: transport and permission
  failures are left out, a read of a missing key is the one rejection of a well-formed
  request. A listing is a single page holding every match.
\<close>

record s3_object =
  body :: string
  content_type :: "string option"
  modified :: nat

datatype s3_request =
    ListBuckets
  | CreateBucket string
  | ListObjectsV2 string "string option" char
  | ListObjects string string
  | GetObject string string
  | PutObject string string "string option" "string option"
  | DeleteObjects string "string option list"

record s3 =
  bucket_names :: "string list"
  stored :: "((string \<times> string) \<times> s3_object) list"
  clock :: nat
  requests :: "s3_request list"

text \<open>The output shapes of the client: every member is optional in the SDK's types.\<close>

record s3_bucket =
  Name :: "string option"

record s3_content =
  Key :: "string option"
  LastModified :: "nat option"

record s3_common_prefix =
  Prefix :: "string option"

record s3_listing =
  Contents :: "s3_content list option"
  CommonPrefixes :: "s3_common_prefix list option"

record get_object_output =
  Body :: "string list option"

definition issue :: "s3_request \<Rightarrow> s3 \<Rightarrow> s3" where
  "issue r s = s\<lparr>requests := requests s @ [r]\<rparr>"

text \<open>The objects of bucket \<open>b\<close> whose key starts with \<open>p\<close>, in listing order.\<close>

definition keys_under :: "s3 \<Rightarrow> string \<Rightarrow> string \<Rightarrow> (string \<times> s3_object) list" where
  "keys_under s b p =
     map (\<lambda>(bk, obj). (snd bk, obj))
       (filter (\<lambda>(bk, obj). fst bk = b \<and> starts_with p (snd bk)) (stored s))"

text \<open>With a delimiter, a key whose remainder after the prefix contains the delimiter is
  rolled up into the common prefix that ends at the first delimiter; the other keys are
  the contents. An empty section is absent from the output.\<close>

definition rolled_up :: "char option \<Rightarrow> string \<Rightarrow> string \<Rightarrow> bool" where
  "rolled_up delim p k =
     (case delim of None \<Rightarrow> False | Some d \<Rightarrow> d \<in> set (drop (length p) k))"

definition common_prefix :: "char \<Rightarrow> string \<Rightarrow> string \<Rightarrow> string" where
  "common_prefix d p k = p @ takeWhile (\<lambda>c. c \<noteq> d) (drop (length p) k) @ [d]"

definition listing :: "s3 \<Rightarrow> string \<Rightarrow> string option \<Rightarrow> char option \<Rightarrow> s3_listing" where
  "listing s b prefix delim =
     (let p = (case prefix of None \<Rightarrow> [] | Some q \<Rightarrow> q);
          under = keys_under s b p;
          leaves = map (\<lambda>(k, obj). \<lparr>Key = Some k, LastModified = Some (modified obj)\<rparr>)
                     (filter (\<lambda>(k, obj). \<not> rolled_up delim p k) under);
          groups = (case delim of
                      None \<Rightarrow> []
                    | Some d \<Rightarrow>
                        remdups (map (\<lambda>(k, obj). common_prefix d p k)
                                   (filter (\<lambda>(k, obj). rolled_up delim p k) under)))
      in \<lparr>Contents = (if leaves = [] then None else Some leaves),
          CommonPrefixes =
            (if groups = [] then None else Some (map (\<lambda>g. \<lparr>Prefix = Some g\<rparr>) groups))\<rparr>)"

definition s3_listBuckets :: "s3 \<Rightarrow> s3_bucket list option \<times> s3" where
  "s3_listBuckets s =
     ((if bucket_names s = [] then None
       else Some (map (\<lambda>n. \<lparr>Name = Some n\<rparr>) (bucket_names s))),
      issue ListBuckets s)"

definition s3_createBucket :: "string \<Rightarrow> s3 \<Rightarrow> s3" where
  "s3_createBucket b s = issue (CreateBucket b) (s\<lparr>bucket_names := bucket_names s @ [b]\<rparr>)"

definition s3_listObjectsV2 ::
  "string \<Rightarrow> string option \<Rightarrow> char \<Rightarrow> s3 \<Rightarrow> s3_listing \<times> s3" where
  "s3_listObjectsV2 b prefix d s =
     (listing s b prefix (Some d), issue (ListObjectsV2 b prefix d) s)"

definition s3_listObjects :: "string \<Rightarrow> string \<Rightarrow> s3 \<Rightarrow> s3_listing \<times> s3" where
  "s3_listObjects b p s = (listing s b (Some p) None, issue (ListObjects b p) s)"

definition s3_getObject :: "string \<Rightarrow> string \<Rightarrow> s3 \<Rightarrow> (error + get_object_output) \<times> s3" where
  "s3_getObject b k s =
     (case map_of (stored s) (b, k) of
        None \<Rightarrow> (Inl NoSuchKey, issue (GetObject b k) s)
      | Some obj \<Rightarrow> (Inr \<lparr>Body = Some [body obj]\<rparr>, issue (GetObject b k) s))"

text \<open>A put creates the object or replaces the one at the key; an absent body is the
  empty body.\<close>

definition s3_putObject ::
  "string \<Rightarrow> string \<Rightarrow> string option \<Rightarrow> string option \<Rightarrow> s3 \<Rightarrow> s3" where
  "s3_putObject b k bd ct s =
     issue (PutObject b k bd ct)
       (s\<lparr>stored := AList.update (b, k)
                      \<lparr>body = (case bd of None \<Rightarrow> [] | Some x \<Rightarrow> x),
                       content_type = ct, modified = clock s\<rparr> (stored s),
          clock := Suc (clock s)\<rparr>)"

text \<open>A batched delete removes every named key that exists; an object identifier
  without a key makes the request malformed.\<close>

definition s3_deleteObjects :: "string \<Rightarrow> string option list \<Rightarrow> s3 \<Rightarrow> (error + unit) \<times> s3" where
  "s3_deleteObjects b ks s =
     (if None \<in> set ks then (Inl MalformedRequest, issue (DeleteObjects b ks) s)
      else (Inr (),
            issue (DeleteObjects b ks)
              (s\<lparr>stored := filter (\<lambda>(bk, obj). \<not> (fst bk = b \<and> Some (snd bk) \<in> set ks))
                              (stored s)\<rparr>)))"

section \<open>The store (class S3db)\<close>

text \<open>
  The definitions follow the class that imports \<^verbatim>\<open>./type\<close> and \<^verbatim>\<open>./util\<close>
  (src/unnamed/part_001). The revision in src/unnamed/part_002 has the same methods and an
  \<^verbatim>\<open>initialize\<close> that rejects a missing bucket or collection instead of creating it;
  the revision in src/s3db.ts differs in \<^verbatim>\<open>getDBEntries\<close> (it asserts both sections
  of the listing and keeps the full prefixes) and in \<^verbatim>\<open>uploadDBDocument\<close> (it tests
  only the presence of \<^verbatim>\<open>id\<close>).

  The handle holds the two private fields, \<^verbatim>\<open>undefined\<close> until bound. Every method
  takes the state of the service and returns it with its result; a thrown error is the
  \<open>Inl\<close> result, and the state returned with it holds what had been done before the throw.
  \<^verbatim>\<open>JSON.stringify(v, null, 4)\<close>, \<^verbatim>\<open>JSON.parse\<close> (\<open>None\<close> where it throws) are
  the platform's and are taken as the two members of \<open>runtime\<close>; the string that
  \<^verbatim>\<open>uuid()\<close> returns in a call is the argument \<open>u\<close> of that call. A parameter
  \<^verbatim>\<open>id\<close> of the source is \<open>docId\<close> here.
\<close>

record S3db =
  bucketName :: "string option"
  collectionName :: "string option"

record runtime =
  JSON_stringify :: "json \<Rightarrow> string"
  JSON_parse :: "string \<Rightarrow> json option"

record db_object =
  name :: string
  lastModified :: nat

record db_entries =
  folderNames :: "string list"
  objects :: "db_object list"

record media_file =
  file_name :: string
  file_data :: string

datatype signed_url = SignedUrl string string

text \<open>\<^verbatim>\<open>streamToString\<close> (src/util.ts): the chunks of the stream, concatenated.\<close>

definition streamToString :: "string list \<Rightarrow> string" where
  "streamToString chunks = concat chunks"

definition getDBBuckets :: "s3 \<Rightarrow> s3_bucket list \<times> s3" where
  "getDBBuckets s =
     (case s3_listBuckets s of
        (None, s') \<Rightarrow> ([], s')
      | (Some bs, s') \<Rightarrow> (bs, s'))"

text \<open>The two loops of \<^verbatim>\<open>getDBEntries\<close>.\<close>

fun matchObjects :: "s3_content list \<Rightarrow> db_object list \<Rightarrow> db_object list" where
  "matchObjects [] acc = acc"
| "matchObjects (c # cs) acc =
     (case (Key c, LastModified c) of
        (Some n, Some t) \<Rightarrow>
          if n \<noteq> [] then matchObjects cs (acc @ [\<lparr>name = n, lastModified = t\<rparr>])
          else matchObjects cs acc
      | _ \<Rightarrow> matchObjects cs acc)"

fun matchFolders :: "string \<Rightarrow> s3_common_prefix list \<Rightarrow> string list \<Rightarrow> string list" where
  "matchFolders prefix [] acc = acc"
| "matchFolders prefix (cp # cps) acc =
     (case Prefix cp of
        None \<Rightarrow> matchFolders prefix cps acc
      | Some p \<Rightarrow>
          if p \<noteq> []
          then matchFolders prefix cps (set_add (hd (split CHR ''/'' (replace prefix [] p))) acc)
          else matchFolders prefix cps acc)"

text \<open>What \<^verbatim>\<open>getDBEntries\<close> makes of the output of \<^verbatim>\<open>listObjectsV2\<close>.\<close>

definition entries_of :: "string option \<Rightarrow> s3_listing \<Rightarrow> db_entries" where
  "entries_of prefix result =
     \<lparr>folderNames =
        (case CommonPrefixes result of
           None \<Rightarrow> []
         | Some cps \<Rightarrow> matchFolders (case prefix of None \<Rightarrow> [] | Some p \<Rightarrow> p) cps []),
      objects =
        (case Contents result of
           None \<Rightarrow> []
         | Some cs \<Rightarrow> matchObjects cs [])\<rparr>"

definition getDBEntries :: "S3db \<Rightarrow> string option \<Rightarrow> s3 \<Rightarrow> (error + db_entries) \<times> s3" where
  "getDBEntries h prefix s =
     (case invariant (bucketName h) ''Invalid bucketName'' of
        Inl e \<Rightarrow> (Inl e, s)
      | Inr b \<Rightarrow>
          (case s3_listObjectsV2 b prefix CHR ''/'' s of
             (result, s') \<Rightarrow> (Inr (entries_of prefix result), s')))"

definition getDBCollectionNames :: "S3db \<Rightarrow> s3 \<Rightarrow> (error + string list) \<times> s3" where
  "getDBCollectionNames h s =
     (case getDBEntries h None s of
        (Inl e, s') \<Rightarrow> (Inl e, s')
      | (Inr es, s') \<Rightarrow> (Inr (folderNames es), s'))"

text \<open>\<^verbatim>\<open>S3db.initialize\<close>: a missing bucket and a missing collection folder are created.\<close>

definition initialize :: "S3ClientConfig \<Rightarrow> string \<Rightarrow> string \<Rightarrow> s3 \<Rightarrow> (error + S3db) \<times> s3" where
  "initialize s3ClientConfig bucket collection s =
     (case getDBBuckets s of
        (buckets, s1) \<Rightarrow>
          (let isBucketInS3 = (\<exists>b \<in> set buckets. Name b = Some bucket);
               s2 = (if \<not> isBucketInS3 then s3_createBucket bucket s1 else s1);
               db = \<lparr>bucketName = Some bucket, collectionName = None\<rparr>
           in case getDBCollectionNames db s2 of
                (Inl e, s3) \<Rightarrow> (Inl e, s3)
              | (Inr collectionNames, s3) \<Rightarrow>
                  (let isCollectionInBucket = (collection \<in> set collectionNames);
                       s4 = (if \<not> isCollectionInBucket
                             then s3_putObject bucket (collection @ ''/'') None None s3
                             else s3)
                   in (Inr (db\<lparr>collectionName := Some collection\<rparr>), s4))))"

definition getDBDocumentIds :: "S3db \<Rightarrow> s3 \<Rightarrow> (error + string list) \<times> s3" where
  "getDBDocumentIds h s =
     (case invariant (collectionName h) ''Invalid collectionName'' of
        Inl e \<Rightarrow> (Inl e, s)
      | Inr c \<Rightarrow>
          (case getDBEntries h (Some (c @ ''/'')) s of
             (Inl e, s') \<Rightarrow> (Inl e, s')
           | (Inr es, s') \<Rightarrow> (Inr (folderNames es), s')))"

definition getDBEntry :: "runtime \<Rightarrow> S3db \<Rightarrow> string \<Rightarrow> s3 \<Rightarrow> (error + json) \<times> s3" where
  "getDBEntry rt h k s =
     (case invariant (bucketName h) ''Invalid bucketName'' of
        Inl e \<Rightarrow> (Inl e, s)
      | Inr b \<Rightarrow>
          (case s3_getObject b k s of
             (Inl e, s') \<Rightarrow> (Inl e, s')
           | (Inr out, s') \<Rightarrow>
               (case Body out of
                  None \<Rightarrow> (Inl (InvariantFailed ''Invalid Body from getDBEntry''), s')
                | Some stream \<Rightarrow>
                    (case JSON_parse rt (streamToString stream) of
                       None \<Rightarrow> (Inl SyntaxError, s')
                     | Some v \<Rightarrow> (Inr v, s')))))"

definition getDBCollectionEntries :: "S3db \<Rightarrow> string \<Rightarrow> s3 \<Rightarrow> (error + db_entries) \<times> s3" where
  "getDBCollectionEntries h prefixInCollection s =
     (case invariant (collectionName h) ''Invalid collectionName'' of
        Inl e \<Rightarrow> (Inl e, s)
      | Inr c \<Rightarrow> getDBEntries h (Some (c @ ''/'' @ prefixInCollection)) s)"

definition getDBCollectionEntry :: "runtime \<Rightarrow> S3db \<Rightarrow> string \<Rightarrow> s3 \<Rightarrow> (error + json) \<times> s3" where
  "getDBCollectionEntry rt h keyInCollection s =
     (case invariant (collectionName h) ''Invalid collectionName'' of
        Inl e \<Rightarrow> (Inl e, s)
      | Inr c \<Rightarrow> getDBEntry rt h (c @ ''/'' @ keyInCollection) s)"

definition getDBDocumentData :: "runtime \<Rightarrow> S3db \<Rightarrow> string \<Rightarrow> s3 \<Rightarrow> (error + json) \<times> s3" where
  "getDBDocumentData rt h docId s = getDBCollectionEntry rt h (docId @ ''/data.json'') s"

definition getDBDocumentMedia :: "S3db \<Rightarrow> string \<Rightarrow> s3 \<Rightarrow> (error + db_object list) \<times> s3" where
  "getDBDocumentMedia h docId s =
     (case getDBCollectionEntries h docId s of
        (Inl e, s') \<Rightarrow> (Inl e, s')
      | (Inr es, s') \<Rightarrow> (Inr (filter (\<lambda>obj. name obj \<noteq> ''data.json'') (objects es)), s'))"

text \<open>\<^verbatim>\<open>getSignedUrl\<close> signs locally: \<open>SignedUrl b k\<close> is the URL that reads key \<open>k\<close>
  of bucket \<open>b\<close>.\<close>

definition getDBDocumentUrl :: "S3db \<Rightarrow> string \<Rightarrow> error + signed_url" where
  "getDBDocumentUrl h docId =
     (case invariant (bucketName h) ''Invalid bucketName'' of
        Inl e \<Rightarrow> Inl e
      | Inr b \<Rightarrow> Inr (SignedUrl b (template (collectionName h) @ ''/'' @ docId @ ''/data.json'')))"

definition uploadDBCollectionEntry ::
  "S3db \<Rightarrow> string \<Rightarrow> string option \<Rightarrow> s3 \<Rightarrow> (error + unit) \<times> s3" where
  "uploadDBCollectionEntry h keyInCollection bd s =
     (case invariant (bucketName h) ''Invalid bucketName'' of
        Inl e \<Rightarrow> (Inl e, s)
      | Inr b \<Rightarrow>
          (case invariant (collectionName h) ''Invalid collectionName'' of
             Inl e \<Rightarrow> (Inl e, s)
           | Inr c \<Rightarrow> (Inr (), s3_putObject b (c @ ''/'' @ keyInCollection) bd None s)))"

definition uploadDBCollectionMedia ::
  "S3db \<Rightarrow> string \<Rightarrow> media_file \<Rightarrow> s3 \<Rightarrow> (error + unit) \<times> s3" where
  "uploadDBCollectionMedia h keyInCollection f s =
     (case invariant (bucketName h) ''Invalid bucketName'' of
        Inl e \<Rightarrow> (Inl e, s)
      | Inr b \<Rightarrow>
          (case invariant (collectionName h) ''Invalid collectionName'' of
             Inl e \<Rightarrow> (Inl e, s)
           | Inr c \<Rightarrow>
               (Inr (),
                s3_putObject b (c @ ''/'' @ keyInCollection) (Some (file_data f))
                  (Some (''image/'' @ template (index (split CHR ''.'' (file_name f)) 1))) s)))"

text \<open>\<^verbatim>\<open>uploadDBDocument\<close>. The document is the list of its properties;
  \<^verbatim>\<open>{ ...document, id }\<close> sets \<^verbatim>\<open>id\<close> where the property is, or appends it.\<close>

definition uploadDBDocument ::
  "runtime \<Rightarrow> S3db \<Rightarrow> (string \<times> json) list \<Rightarrow> string \<Rightarrow> s3 \<Rightarrow> (error + json) \<times> s3" where
  "uploadDBDocument rt h document u s =
     (let fresh =
            (case uploadDBCollectionEntry h (toString (JStr u) @ ''/'') None s of
               (Inl e, s') \<Rightarrow> (Inl e, s')
             | (Inr _, s') \<Rightarrow> (Inr (JStr u), s'))
      in case (case map_of document ''id'' of
                 None \<Rightarrow> fresh
               | Some v \<Rightarrow> if \<not> truthy v then fresh else (Inr v, s)) of
           (Inl e, s1) \<Rightarrow> (Inl e, s1)
         | (Inr docId, s1) \<Rightarrow>
             (case uploadDBCollectionEntry h (toString docId @ ''/data.json'')
                     (Some (JSON_stringify rt (JObj (AList.update ''id'' docId document)))) s1 of
                (Inl e, s2) \<Rightarrow> (Inl e, s2)
              | (Inr _, s2) \<Rightarrow> (Inr docId, s2)))"

text \<open>\<^verbatim>\<open>uploadDBDocumentMedia\<close>: \<^verbatim>\<open>media.map\<close> starts one upload per file, in order;
  \<^verbatim>\<open>Promise.all\<close> rejects with the first failure and undoes nothing.\<close>

fun uploadDBDocumentMedia :: "S3db \<Rightarrow> string \<Rightarrow> media_file list \<Rightarrow> s3 \<Rightarrow> (error + unit) \<times> s3" where
  "uploadDBDocumentMedia h docId [] s = (Inr (), s)"
| "uploadDBDocumentMedia h docId (f # fs) s =
     (case uploadDBCollectionMedia h (docId @ ''/'' @ file_name f) f s of
        (r, s1) \<Rightarrow>
          (case uploadDBDocumentMedia h docId fs s1 of
             (rs, s2) \<Rightarrow> ((case r of Inl e \<Rightarrow> Inl e | Inr _ \<Rightarrow> rs), s2)))"

definition uploadDBDocumentWithMedia ::
  "runtime \<Rightarrow> S3db \<Rightarrow> (string \<times> json) list \<Rightarrow> media_file list \<Rightarrow> string \<Rightarrow> s3 \<Rightarrow> (error + json) \<times> s3" where
  "uploadDBDocumentWithMedia rt h document media u s =
     (case invariant (collectionName h) ''Invalid collectionName'' of
        Inl e \<Rightarrow> (Inl e, s)
      | Inr c \<Rightarrow>
          (case uploadDBDocument rt h document u s of
             (Inl e, s1) \<Rightarrow> (Inl e, s1)
           | (Inr docId, s1) \<Rightarrow>
               (case uploadDBDocumentMedia h (toString docId) media s1 of
                  (Inl e, s2) \<Rightarrow> (Inl e, s2)
                | (Inr _, s2) \<Rightarrow> (Inr docId, s2))))"

definition nothing_to_delete :: "string \<Rightarrow> string" where
  "nothing_to_delete docId = ''No objects found in the id<'' @ docId @ ''>. Nothing to delete.''"

definition deleteDBDocumentById :: "S3db \<Rightarrow> string \<Rightarrow> s3 \<Rightarrow> (error + unit) \<times> s3" where
  "deleteDBDocumentById h docId s =
     (case invariant (bucketName h) ''Invalid bucketName'' of
        Inl e \<Rightarrow> (Inl e, s)
      | Inr b \<Rightarrow>
          (case invariant (collectionName h) ''Invalid collectionName'' of
             Inl e \<Rightarrow> (Inl e, s)
           | Inr c \<Rightarrow>
               (case s3_listObjects b (c @ ''/'' @ docId @ ''/'') s of
                  (out, s1) \<Rightarrow>
                    (case map_option (map Key) (Contents out) of
                       None \<Rightarrow> (Inl (InvariantFailed (nothing_to_delete docId)), s1)
                     | Some objs \<Rightarrow>
                         if length objs > 0 then s3_deleteObjects b objs s1
                         else (Inl (InvariantFailed (nothing_to_delete docId)), s1)))))"

definition deleteDBDocumentMedia :: "S3db \<Rightarrow> string \<Rightarrow> string list \<Rightarrow> s3 \<Rightarrow> (error + unit) \<times> s3" where
  "deleteDBDocumentMedia h docId mediaNames s =
     (case invariant (bucketName h) ''Invalid bucketName'' of
        Inl e \<Rightarrow> (Inl e, s)
      | Inr b \<Rightarrow>
          (case invariant (collectionName h) ''Invalid collectionName'' of
             Inl e \<Rightarrow> (Inl e, s)
           | Inr c \<Rightarrow>
               s3_deleteObjects b
                 (map (\<lambda>mediaName. Some (c @ ''/'' @ docId @ ''/'' @ mediaName)) mediaNames) s))"

text \<open>A handle is bound when both names are non-empty strings.\<close>

definition bound :: "S3db \<Rightarrow> bool" where
  "bound h \<longleftrightarrow> (\<exists>b c. bucketName h = Some b \<and> b \<noteq> [] \<and> collectionName h = Some c \<and> c \<noteq> [])"

text \<open>The identifier a document supplies: its \<^verbatim>\<open>id\<close> property when it has one and the
  value is truthy.\<close>

definition supplied_id :: "(string \<times> json) list \<Rightarrow> json option" where
  "supplied_id document =
     (case map_of document ''id'' of
        None \<Rightarrow> None
      | Some v \<Rightarrow> if truthy v then Some v else None)"

section \<open>Concrete inputs\<close>

text \<open>The values at which the theorems below are instantiated.\<close>

definition env_full :: process_env where
  "env_full = \<lparr>S3_DB_REGION = Some ''eu-west-1'', S3_DB_ACCESS_KEY_ID = Some ''AKIDENV'',
               S3_DB_SECRET_ACCESS_KEY = Some ''env-secret''\<rparr>"

definition args_partial :: config_args where
  "args_partial = \<lparr>awsRegion = Some ''us-east-1'', awsAccessKeyId = None, awsSecretAccessKey = None\<rparr>"

definition listing_demo :: s3_listing where
  "listing_demo =
     \<lparr>Contents = None,
      CommonPrefixes = Some [\<lparr>Prefix = Some ''c1/u1/''\<rparr>, \<lparr>Prefix = Some ''c1/u2/''\<rparr>,
                             \<lparr>Prefix = Some ''c1/u1/''\<rparr>, \<lparr>Prefix = None\<rparr>]\<rparr>"

definition h_demo :: S3db where
  "h_demo = \<lparr>bucketName = Some ''b1'', collectionName = Some ''c1''\<rparr>"

definition s_empty :: s3 where
  "s_empty = \<lparr>bucket_names = [''b1''], stored = [], clock = 0, requests = []\<rparr>"

definition s_media :: s3 where
  "s_media =
     \<lparr>bucket_names = [''b1''],
      stored =
        [((''b1'', ''c1/''), \<lparr>body = [], content_type = None, modified = 0\<rparr>),
         ((''b1'', ''c1/d1/data.json''), \<lparr>body = ''42'', content_type = None, modified = 1\<rparr>),
         ((''b1'', ''c1/d1/photo.png''),
          \<lparr>body = ''PNG'', content_type = Some ''image/png'', modified = 2\<rparr>)],
      clock = 3,
      requests = []\<rparr>"

definition doc_demo :: "(string \<times> json) list" where
  "doc_demo = [(''title'', JStr ''A'')]"

definition doc_fixed :: "(string \<times> json) list" where
  "doc_fixed = [(''id'', JStr ''d1''), (''value'', JNum 2)]"

definition text_demo :: string where
  \<open>text_demo = ''{\<newline>    "title": "A",\<newline>    "id": "u1"\<newline>}''\<close>

definition text_fixed :: string where
  \<open>text_fixed = ''{\<newline>    "id": "d1",\<newline>    "value": 2\<newline>}''\<close>

definition rt_demo :: runtime where
  "rt_demo =
     \<lparr>JSON_stringify =
        (\<lambda>v. if v = JObj [(''title'', JStr ''A''), (''id'', JStr ''u1'')] then text_demo
             else if v = JObj [(''id'', JStr ''d1''), (''value'', JNum 2)] then text_fixed
             else ''null''),
      JSON_parse =
        (\<lambda>t. if t = text_demo then Some (JObj [(''title'', JStr ''A''), (''id'', JStr ''u1'')])
             else if t = text_fixed then Some (JObj [(''id'', JStr ''d1''), (''value'', JNum 2)])
             else if t = ''42'' then Some (JNum 42)
             else None)\<rparr>"

definition h_no_collection :: S3db where
  "h_no_collection = \<lparr>bucketName = Some ''b1'', collectionName = None\<rparr>"

definition cfg_demo :: S3ClientConfig where
  "cfg_demo = \<lparr>region = ''us-east-1'',
               credentials = \<lparr>accessKeyId = ''AKID'', secretAccessKey = ''secret''\<rparr>\<rparr>"

definition media_demo :: "media_file list" where
  "media_demo =
     [\<lparr>file_name = ''photo.final.png'', file_data = ''PNG''\<rparr>,
      \<lparr>file_name = ''logo.png'', file_data = ''PNG''\<rparr>,
      \<lparr>file_name = ''README'', file_data = ''text''\<rparr>]"

section \<open>Facts about the helpers\<close>

lemma split_not_Nil: "split c s \<noteq> []"
  by (induction s) (auto split: list.splits)

lemma hd_split: "hd (split c s) = takeWhile (\<lambda>x. x \<noteq> c) s"
  by (induction s) (auto split: list.splits simp: split_not_Nil)

lemma starts_with_append: "starts_with p (p @ r)"
  by (induction p) auto

lemma starts_with_iff: "starts_with p k \<longleftrightarrow> (\<exists>r. k = p @ r)"
proof (induction p k rule: starts_with.induct)
  case (1 s) show ?case by simp
next
  case (2 p ps) show ?case by simp
next
  case (3 p ps x xs) then show ?case by auto
qed

lemma replace_prefix: "replace p [] (p @ r) = r"
proof (cases "p @ r")
  case Nil
  then show ?thesis by simp
next
  case (Cons a list)
  have "starts_with p (a # list)"
    using starts_with_append [of p r] Cons by simp
  then have "replace p [] (a # list) = drop (length p) (a # list)"
    by simp
  then have "replace p [] (p @ r) = drop (length p) (p @ r)"
    unfolding Cons .
  then show ?thesis
    by simp
qed

lemma set_set_add: "set (set_add x xs) = insert x (set xs)"
  by (auto simp: set_add_def)

lemma distinct_set_add: "distinct xs \<Longrightarrow> distinct (set_add x xs)"
  by (auto simp: set_add_def)

lemma distinct_matchFolders: "distinct acc \<Longrightarrow> distinct (matchFolders p cps acc)"
  by (induction p cps acc rule: matchFolders.induct) (auto simp: distinct_set_add split: option.splits)

lemma set_matchFolders:
  "set (matchFolders p cps acc) =
     set acc \<union> {takeWhile (\<lambda>x. x \<noteq> CHR ''/'') (replace p [] q) | q cp. cp \<in> set cps \<and> Prefix cp = Some q \<and> q \<noteq> []}"
proof (induction p cps acc rule: matchFolders.induct)
  case (1 prefix acc)
  show ?case by simp
next
  case (2 prefix cp cps acc)
  show ?case
  proof (cases "Prefix cp")
    case None
    with 2 show ?thesis by auto
  next
    case (Some q)
    show ?thesis
    proof (cases "q = []")
      case True
      with Some 2 show ?thesis by auto
    next
      case False
      with Some 2 show ?thesis
        by (auto simp: set_set_add hd_split)
    qed
  qed
qed

lemma invariant_Some: "s \<noteq> [] \<Longrightarrow> invariant (Some s) msg = Inr s"
  by (simp add: invariant_def)

lemma uploadDBCollectionEntry_bound:
  assumes "bucketName h = Some b" "b \<noteq> []" "collectionName h = Some c" "c \<noteq> []"
  shows "uploadDBCollectionEntry h k bd s = (Inr (), s3_putObject b (c @ ''/'' @ k) bd None s)"
  using assms by (simp add: uploadDBCollectionEntry_def invariant_Some)

lemma stored_putObject:
  "map_of (stored (s3_putObject b k bd ct s)) (b, k)
     = Some \<lparr>body = (case bd of None \<Rightarrow> [] | Some x \<Rightarrow> x), content_type = ct, modified = clock s\<rparr>"
  by (simp add: s3_putObject_def issue_def update_conv')

lemma requests_putObject:
  "requests (s3_putObject b k bd ct s) = requests s @ [PutObject b k bd ct]"
  by (simp add: s3_putObject_def issue_def)

lemma uploadDBDocument_bound:
  assumes "bucketName h = Some b" "b \<noteq> []" "collectionName h = Some c" "c \<noteq> []"
  shows "uploadDBDocument rt h document u s =
           (case supplied_id document of
              None \<Rightarrow>
                (Inr (JStr u),
                 s3_putObject b (c @ ''/'' @ u @ ''/data.json'')
                   (Some (JSON_stringify rt (JObj (AList.update ''id'' (JStr u) document)))) None
                   (s3_putObject b (c @ ''/'' @ u @ ''/'') None None s))
            | Some v \<Rightarrow>
                (Inr v,
                 s3_putObject b (c @ ''/'' @ toString v @ ''/data.json'')
                   (Some (JSON_stringify rt (JObj (AList.update ''id'' v document)))) None s))"
  by (cases "map_of document ''id''")
     (auto simp: uploadDBDocument_def uploadDBCollectionEntry_bound [OF assms] supplied_id_def)

lemma getDBEntry_bound:
  assumes "bucketName h = Some b" "b \<noteq> []"
  shows "fst (getDBEntry rt h k s) =
           (case map_of (stored s) (b, k) of
              None \<Rightarrow> Inl NoSuchKey
            | Some obj \<Rightarrow>
                (case JSON_parse rt (body obj) of None \<Rightarrow> Inl SyntaxError | Some v \<Rightarrow> Inr v))"
  using assms
  by (simp add: getDBEntry_def invariant_Some s3_getObject_def streamToString_def
      split: option.splits)

lemma getDBEntries_bound:
  assumes "bucketName h = Some b" "b \<noteq> []"
  shows "getDBEntries h prefix s =
           (Inr (entries_of prefix (listing s b prefix (Some CHR ''/''))),
            issue (ListObjectsV2 b prefix CHR ''/'') s)"
  using assms by (simp add: getDBEntries_def invariant_Some s3_listObjectsV2_def)

lemma mem_keys_under:
  "(k, obj) \<in> set (keys_under s b p) \<longleftrightarrow> ((b, k), obj) \<in> set (stored s) \<and> starts_with p k"
  by (force simp: keys_under_def)

lemma keys_under_issue: "keys_under (issue r s) b p = keys_under s b p"
  by (simp add: keys_under_def issue_def)

lemma Contents_no_delimiter:
  "map_option (map Key) (Contents (listing s b (Some p) None)) =
     (if keys_under s b p = [] then None else Some (map Some (map fst (keys_under s b p))))"
proof -
  have "map Key (map (\<lambda>(k, obj). \<lparr>Key = Some k, LastModified = Some (modified obj)\<rparr>) xs)
          = map Some (map fst xs)" for xs :: "(string \<times> s3_object) list"
    by (induction xs) auto
  then show ?thesis
    by (simp add: listing_def rolled_up_def Let_def del: map_map)
qed

lemma s3_deleteObjects_keys:
  "s3_deleteObjects b (map Some ks) s =
     (Inr (),
      issue (DeleteObjects b (map Some ks))
        (s\<lparr>stored := filter (\<lambda>(bk, obj). \<not> (fst bk = b \<and> snd bk \<in> set ks)) (stored s)\<rparr>))"
proof -
  have "None \<notin> set (map Some ks)"
    by auto
  moreover have "(Some k \<in> set (map Some ks)) = (k \<in> set ks)" for k
    by auto
  ultimately show ?thesis
    unfolding s3_deleteObjects_def by (simp only: if_False)
qed

lemma delete_keys_under:
  "filter (\<lambda>(bk, obj). \<not> (fst bk = b \<and> snd bk \<in> set (map fst (keys_under s b p)))) (stored s)
   = filter (\<lambda>(bk, obj). \<not> (fst bk = b \<and> starts_with p (snd bk))) (stored s)"
proof (rule filter_cong [OF refl])
  fix x assume x: "x \<in> set (stored s)"
  obtain b' k obj where xe: "x = ((b', k), obj)"
    by (metis prod.collapse)
  have "k \<in> set (map fst (keys_under s b p)) \<longleftrightarrow> (\<exists>o'. (k, o') \<in> set (keys_under s b p))"
    by force
  then have "b' = b \<Longrightarrow> k \<in> set (map fst (keys_under s b p)) \<longleftrightarrow> starts_with p k"
    using x xe by (auto simp: mem_keys_under)
  then show "(case x of (bk, obj) \<Rightarrow> \<not> (fst bk = b \<and> snd bk \<in> set (map fst (keys_under s b p))))
      = (case x of (bk, obj) \<Rightarrow> \<not> (fst bk = b \<and> starts_with p (snd bk)))"
    by (auto simp: xe)
qed

lemma h_demo_bound:
  "bucketName h_demo = Some ''b1''" "''b1'' \<noteq> []"
  "collectionName h_demo = Some ''c1''" "''c1'' \<noteq> []"
  by (simp_all add: h_demo_def)

lemma names_matchObjects:
  "n \<in> name ` set (matchObjects cs acc) \<Longrightarrow> n \<in> name ` set acc \<or> Some n \<in> Key ` set cs"
proof (induction cs arbitrary: acc)
  case Nil
  then show ?case by simp
next
  case (Cons c cs)
  show ?case
  proof (cases "\<exists>k t. Key c = Some k \<and> k \<noteq> [] \<and> LastModified c = Some t")
    case True
    then obtain k t where kt: "Key c = Some k" "k \<noteq> []" "LastModified c = Some t"
      by blast
    then have "n \<in> name ` set (matchObjects cs (acc @ [\<lparr>name = k, lastModified = t\<rparr>]))"
      using Cons.prems by simp
    then have "n \<in> name ` set (acc @ [\<lparr>name = k, lastModified = t\<rparr>]) \<or> Some n \<in> Key ` set cs"
      by (rule Cons.IH)
    then show ?thesis
      using kt by force
  next
    case False
    then have "matchObjects (c # cs) acc = matchObjects cs acc"
      by (cases "Key c"; cases "LastModified c") auto
    then have "n \<in> name ` set acc \<or> Some n \<in> Key ` set cs"
      using Cons.prems Cons.IH by simp
    then show ?thesis
      by auto
  qed
qed

lemma invariant_cases:
  obtains x where "v = Some x" "x \<noteq> []" "invariant v msg = Inr x"
  | "invariant v msg = Inl (InvariantFailed msg)"
  by (cases v; cases "the v = []") (auto simp: invariant_def)

lemma uploadDBCollectionEntry_unbound:
  assumes "\<not> bound h"
  shows "\<exists>m. uploadDBCollectionEntry h k bd s = (Inl (InvariantFailed m), s)"
  using assms
  by (auto simp: bound_def uploadDBCollectionEntry_def invariant_def split: option.splits)

lemma uploadDBCollectionMedia_unbound:
  assumes "\<not> bound h"
  shows "\<exists>m. uploadDBCollectionMedia h k f s = (Inl (InvariantFailed m), s)"
  using assms
  by (auto simp: bound_def uploadDBCollectionMedia_def invariant_def split: option.splits)

lemma uploadDBDocumentMedia_unbound:
  assumes "\<not> bound h" "media \<noteq> []"
  shows "\<exists>m. uploadDBDocumentMedia h docId media s = (Inl (InvariantFailed m), s)"
  using assms(2)
proof (induction media)
  case Nil
  then show ?case by simp
next
  case (Cons f fs)
  obtain m where m: "uploadDBCollectionMedia h (docId @ ''/'' @ file_name f) f s
                       = (Inl (InvariantFailed m), s)"
    using uploadDBCollectionMedia_unbound [OF assms(1)] by blast
  show ?case
  proof (cases "fs = []")
    case True
    then show ?thesis using m by simp
  next
    case False
    with Cons obtain m' where "uploadDBDocumentMedia h docId fs s = (Inl (InvariantFailed m'), s)"
      by blast
    then show ?thesis using m by simp
  qed
qed

lemma getDBEntries_unbound_bucket:
  "\<not> (\<exists>b. bucketName h = Some b \<and> b \<noteq> []) \<Longrightarrow>
     getDBEntries h prefix s = (Inl (InvariantFailed ''Invalid bucketName''), s)"
  by (auto simp: getDBEntries_def invariant_def split: option.splits)

lemma getDBEntry_unbound_bucket:
  "\<not> (\<exists>b. bucketName h = Some b \<and> b \<noteq> []) \<Longrightarrow>
     getDBEntry rt h k s = (Inl (InvariantFailed ''Invalid bucketName''), s)"
  by (auto simp: getDBEntry_def invariant_def split: option.splits)

lemma uploadDBCollectionMedia_bound:
  assumes "bucketName h = Some b" "b \<noteq> []" "collectionName h = Some c" "c \<noteq> []"
  shows "uploadDBCollectionMedia h k f s =
           (Inr (),
            s3_putObject b (c @ ''/'' @ k) (Some (file_data f))
              (Some (''image/'' @ template (index (split CHR ''.'' (file_name f)) 1))) s)"
  using assms by (simp add: uploadDBCollectionMedia_def invariant_Some)

lemma uploadDBDocumentMedia_bound:
  assumes "bucketName h = Some b" "b \<noteq> []" "collectionName h = Some c" "c \<noteq> []"
  shows "fst (uploadDBDocumentMedia h docId media s) = Inr ()
       \<and> requests (snd (uploadDBDocumentMedia h docId media s)) =
           requests s @
           map (\<lambda>f. PutObject b (c @ ''/'' @ docId @ ''/'' @ file_name f) (Some (file_data f))
                       (Some (''image/'' @ template (index (split CHR ''.'' (file_name f)) 1))))
             media"
proof (induction media arbitrary: s)
  case Nil
  show ?case by simp
next
  case (Cons f fs)
  show ?case
    using Cons [of "s3_putObject b (c @ ''/'' @ docId @ ''/'' @ file_name f) (Some (file_data f))
              (Some (''image/'' @ template (index (split CHR ''.'' (file_name f)) 1))) s"]
    by (simp add: uploadDBCollectionMedia_bound [OF assms] requests_putObject
        split: prod.splits)
qed

section \<open>The claims\<close>

subsection \<open>C1: uploadDBDocument resolves the id and writes the document\<close>

text \<open>
  C1. On a handle whose bucket and collection are bound: when the document has no
  \<^verbatim>\<open>id\<close> property or a falsy one, the identifier is the string that \<^verbatim>\<open>uuid()\<close>
  returned; otherwise it is the supplied \<^verbatim>\<open>id\<close>. In both cases the call returns the
  identifier, and afterwards the object at \<^verbatim>\<open>{collection}/{id}/data.json\<close> holds the
  JSON text of the document with its \<^verbatim>\<open>id\<close> set to the identifier, whatever was at
  that key before. The requests sent are that one put, preceded by the put of the empty
  folder object \<^verbatim>\<open>{collection}/{id}/\<close> when the identifier is new: nothing is read or
  listed first.
\<close>

theorem uploadDBDocument_resolved_id:
  assumes "bucketName h = Some b" "b \<noteq> []" "collectionName h = Some c" "c \<noteq> []"
  shows "let supplied = (case map_of document ''id'' of None \<Rightarrow> False | Some v \<Rightarrow> truthy v);
             rid = (case map_of document ''id'' of
                      None \<Rightarrow> JStr u
                    | Some v \<Rightarrow> if truthy v then v else JStr u);
             k = c @ ''/'' @ toString rid @ ''/data.json'';
             txt = JSON_stringify rt (JObj (AList.update ''id'' rid document));
             res = uploadDBDocument rt h document u s
         in fst res = Inr rid
          \<and> map_option body (map_of (stored (snd res)) (b, k)) = Some txt
          \<and> requests (snd res) = requests s @
               (if supplied then [PutObject b k (Some txt) None]
                else [PutObject b (c @ ''/'' @ u @ ''/'') None None,
                      PutObject b k (Some txt) None])"
  by (cases "map_of document ''id''")
     (simp_all add: uploadDBDocument_bound [OF assms] supplied_id_def
        stored_putObject requests_putObject Let_def)

theorem uploadDBDocument_resolved_id_witness:
  "fst (uploadDBDocument rt_demo h_demo doc_demo ''u1'' s_empty) = Inr (JStr ''u1'')
   \<and> requests (snd (uploadDBDocument rt_demo h_demo doc_demo ''u1'' s_empty))
       = [PutObject ''b1'' ''c1/u1/'' None None,
          PutObject ''b1'' ''c1/u1/data.json'' (Some text_demo) None]
   \<and> fst (uploadDBDocument rt_demo h_demo doc_fixed ''u1'' s_media) = Inr (JStr ''d1'')
   \<and> map_option body
        (map_of (stored (snd (uploadDBDocument rt_demo h_demo doc_fixed ''u1'' s_media)))
           (''b1'', ''c1/d1/data.json'')) = Some text_fixed
   \<and> requests (snd (uploadDBDocument rt_demo h_demo doc_fixed ''u1'' s_media))
       = [PutObject ''b1'' ''c1/d1/data.json'' (Some text_fixed) None]"
proof -
  have b: "bucketName h_demo = Some ''b1''" "''b1'' \<noteq> []"
    "collectionName h_demo = Some ''c1''" "''c1'' \<noteq> []"
    by (simp_all add: h_demo_def)
  have fresh: "fst (uploadDBDocument rt_demo h_demo doc_demo ''u1'' s_empty) = Inr (JStr ''u1'')
     \<and> requests (snd (uploadDBDocument rt_demo h_demo doc_demo ''u1'' s_empty))
       = [PutObject ''b1'' ''c1/u1/'' None None,
          PutObject ''b1'' ''c1/u1/data.json'' (Some text_demo) None]"
    using uploadDBDocument_resolved_id [OF b, of doc_demo "''u1''" rt_demo s_empty]
    by (simp add: doc_demo_def rt_demo_def s_empty_def Let_def)
  have reuse: "fst (uploadDBDocument rt_demo h_demo doc_fixed ''u1'' s_media) = Inr (JStr ''d1'')
   \<and> map_option body
        (map_of (stored (snd (uploadDBDocument rt_demo h_demo doc_fixed ''u1'' s_media)))
           (''b1'', ''c1/d1/data.json'')) = Some text_fixed
   \<and> requests (snd (uploadDBDocument rt_demo h_demo doc_fixed ''u1'' s_media))
       = [PutObject ''b1'' ''c1/d1/data.json'' (Some text_fixed) None]"
    using uploadDBDocument_resolved_id [OF b, of doc_fixed "''u1''" rt_demo s_media]
    by (simp add: doc_fixed_def rt_demo_def s_media_def Let_def)
  from fresh reuse show ?thesis
    by simp
qed

subsection \<open>C2: a document read back after its upload\<close>

text \<open>
  C2. On a bound handle the upload of a document \<open>v\<close> returns an identifier. Let \<open>d\<close> be
  \<open>v\<close> with its \<^verbatim>\<open>id\<close> set to that identifier: its properties are those of \<open>v\<close>
  except that \<^verbatim>\<open>id\<close> is the identifier. When \<^verbatim>\<open>JSON.parse\<close> reads \<open>d\<close> back from
  its \<^verbatim>\<open>JSON.stringify\<close> text, reading the identifier with \<^verbatim>\<open>getDBDocumentData\<close>
  right after the upload returns exactly \<open>d\<close>. (The identifier reaches the key through a
  template literal, so the read takes its string form.)
\<close>

theorem upload_then_get_roundtrip:
  assumes "bucketName h = Some b" "b \<noteq> []" "collectionName h = Some c" "c \<noteq> []"
  shows "case uploadDBDocument rt h v u s of
           (Inl e, s') \<Rightarrow> False
         | (Inr rid, s') \<Rightarrow>
             (let d = JObj (AList.update ''id'' rid v)
              in map_of (AList.update ''id'' rid v) = (map_of v)(''id'' \<mapsto> rid)
               \<and> (JSON_parse rt (JSON_stringify rt d) = Some d
                    \<longrightarrow> fst (getDBDocumentData rt h (toString rid) s') = Inr d))"
proof -
  obtain r s' where res: "uploadDBDocument rt h v u s = (r, s')"
    by (cases "uploadDBDocument rt h v u s")
  define rid where "rid = (case map_of v ''id'' of
                      None \<Rightarrow> JStr u
                    | Some x \<Rightarrow> if truthy x then x else JStr u)"
  define d where "d = JObj (AList.update ''id'' rid v)"
  have up: "r = Inr rid"
    "map_option body (map_of (stored s') (b, c @ ''/'' @ toString rid @ ''/data.json''))
       = Some (JSON_stringify rt d)"
    using uploadDBDocument_bound [OF assms, of rt v u s] res
    by (auto simp: rid_def d_def supplied_id_def stored_putObject split: option.splits)
  have get: "JSON_parse rt (JSON_stringify rt d) = Some d
               \<Longrightarrow> fst (getDBDocumentData rt h (toString rid) s') = Inr d"
    using up(2) by (auto simp: getDBDocumentData_def getDBCollectionEntry_def invariant_Some
        getDBEntry_bound [OF assms(1,2)] assms split: option.splits)
  show ?thesis
    using get by (simp add: res up(1) Let_def d_def update_conv')
qed

theorem upload_then_get_roundtrip_witness:
  "fst (getDBDocumentData rt_demo h_demo ''u1''
          (snd (uploadDBDocument rt_demo h_demo doc_demo ''u1'' s_empty)))
     = Inr (JObj [(''title'', JStr ''A''), (''id'', JStr ''u1'')])"
proof -
  have up: "fst (uploadDBDocument rt_demo h_demo doc_demo ''u1'' s_empty) = Inr (JStr ''u1'')"
    by (simp add: uploadDBDocument_bound [OF h_demo_bound] supplied_id_def doc_demo_def)
  obtain s' where res: "uploadDBDocument rt_demo h_demo doc_demo ''u1'' s_empty = (Inr (JStr ''u1''), s')"
    using up by (cases "uploadDBDocument rt_demo h_demo doc_demo ''u1'' s_empty") auto
  have rt: "JSON_parse rt_demo (JSON_stringify rt_demo (JObj [(''title'', JStr ''A''), (''id'', JStr ''u1'')]))
              = Some (JObj [(''title'', JStr ''A''), (''id'', JStr ''u1'')])"
    by (simp add: rt_demo_def)
  note t = upload_then_get_roundtrip [OF h_demo_bound, where rt = rt_demo and v = doc_demo
      and u = "''u1''" and s = s_empty, unfolded res]
  show ?thesis
    unfolding res using t rt by (simp add: doc_demo_def)
qed

subsection \<open>C3: deleteDBDocumentById\<close>

text \<open>
  C3. On a bound handle \<^verbatim>\<open>deleteDBDocumentById(id)\<close> first lists the keys under
  \<^verbatim>\<open>{collection}/{id}/\<close>. When there is none it fails with the nothing-to-delete error,
  the listing is the only request and the stored objects are unchanged. When there are
  some it succeeds, sends after the listing one batched delete naming exactly the listed
  keys, and the objects under the prefix are gone while all others stay.
\<close>

theorem deleteDBDocumentById_lists_then_deletes:
  assumes "bucketName h = Some b" "b \<noteq> []" "collectionName h = Some c" "c \<noteq> []"
  shows "let p = c @ ''/'' @ docId @ ''/'';
             listed = map fst (keys_under s b p);
             res = deleteDBDocumentById h docId s
         in (listed = [] \<longrightarrow>
               fst res = Inl (InvariantFailed (nothing_to_delete docId))
             \<and> stored (snd res) = stored s
             \<and> requests (snd res) = requests s @ [ListObjects b p])
          \<and> (listed \<noteq> [] \<longrightarrow>
               fst res = Inr ()
             \<and> requests (snd res) =
                 requests s @ [ListObjects b p, DeleteObjects b (map Some listed)]
             \<and> stored (snd res) =
                 filter (\<lambda>(bk, obj). \<not> (fst bk = b \<and> starts_with p (snd bk))) (stored s))"
proof -
  define p where "p = c @ ''/'' @ docId @ ''/''"
  define listed where "listed = map fst (keys_under s b p)"
  define s1 where "s1 = issue (ListObjects b p) s"
  have run: "deleteDBDocumentById h docId s =
               (if listed = [] then (Inl (InvariantFailed (nothing_to_delete docId)), s1)
                else s3_deleteObjects b (map Some listed) s1)"
    using assms
    by (simp add: deleteDBDocumentById_def invariant_Some s3_listObjects_def
        Contents_no_delimiter p_def s1_def listed_def del: map_map case_map_option)
  have s1: "stored s1 = stored s" "requests s1 = requests s @ [ListObjects b p]"
    by (simp_all add: s1_def issue_def)
  have none: "listed = [] \<Longrightarrow> ?thesis"
    unfolding Let_def p_def [symmetric] listed_def [symmetric]
    by (simp add: run s1)
  have some: "listed \<noteq> [] \<Longrightarrow> ?thesis"
  proof -
    assume ne: "listed \<noteq> []"
    have r: "deleteDBDocumentById h docId s =
               (Inr (),
                issue (DeleteObjects b (map Some listed))
                  (s1\<lparr>stored := filter (\<lambda>(bk, obj). \<not> (fst bk = b \<and> snd bk \<in> set listed))
                                   (stored s1)\<rparr>))"
      using ne by (simp only: run s3_deleteObjects_keys if_False)
    have f: "filter (\<lambda>(bk, obj). \<not> (fst bk = b \<and> snd bk \<in> set listed)) (stored s)
               = filter (\<lambda>(bk, obj). \<not> (fst bk = b \<and> starts_with p (snd bk))) (stored s)"
      unfolding listed_def by (rule delete_keys_under)
    show ?thesis
      unfolding Let_def p_def [symmetric] listed_def [symmetric] r
      using ne f by (simp add: issue_def s1)
  qed
  from none some show ?thesis
    by blast
qed

theorem deleteDBDocumentById_lists_then_deletes_witness:
  "fst (deleteDBDocumentById h_demo ''d1'' s_media) = Inr ()
   \<and> requests (snd (deleteDBDocumentById h_demo ''d1'' s_media))
       = [ListObjects ''b1'' ''c1/d1/'',
          DeleteObjects ''b1'' [Some ''c1/d1/data.json'', Some ''c1/d1/photo.png'']]
   \<and> map fst (stored (snd (deleteDBDocumentById h_demo ''d1'' s_media))) = [(''b1'', ''c1/'')]
   \<and> fst (deleteDBDocumentById h_demo ''d2'' s_media)
       = Inl (InvariantFailed ''No objects found in the id<d2>. Nothing to delete.'')
   \<and> stored (snd (deleteDBDocumentById h_demo ''d2'' s_media)) = stored s_media
   \<and> requests (snd (deleteDBDocumentById h_demo ''d2'' s_media)) = [ListObjects ''b1'' ''c1/d2/'']"
proof -
  have k1: "map fst (keys_under s_media ''b1'' (''c1'' @ ''/'' @ ''d1'' @ ''/''))
              = [''c1/d1/data.json'', ''c1/d1/photo.png'']"
    by (simp add: keys_under_def s_media_def)
  have k2: "map fst (keys_under s_media ''b1'' (''c1'' @ ''/'' @ ''d2'' @ ''/'')) = []"
    by (simp add: keys_under_def s_media_def)
  note t1 = deleteDBDocumentById_lists_then_deletes [OF h_demo_bound, where docId = "''d1''"
      and s = s_media, unfolded Let_def k1]
  note t2 = deleteDBDocumentById_lists_then_deletes [OF h_demo_bound, where docId = "''d2''"
      and s = s_media, unfolded Let_def k2]
  have a: "fst (deleteDBDocumentById h_demo ''d1'' s_media) = Inr ()"
    "requests (snd (deleteDBDocumentById h_demo ''d1'' s_media))
       = requests s_media @ [ListObjects ''b1'' ''c1/d1/'',
          DeleteObjects ''b1'' [Some ''c1/d1/data.json'', Some ''c1/d1/photo.png'']]"
    "stored (snd (deleteDBDocumentById h_demo ''d1'' s_media))
       = filter (\<lambda>(bk, obj). \<not> (fst bk = ''b1'' \<and> starts_with ''c1/d1/'' (snd bk)))
           (stored s_media)"
    using t1 by simp_all
  have b: "fst (deleteDBDocumentById h_demo ''d2'' s_media)
       = Inl (InvariantFailed (nothing_to_delete ''d2''))"
    "stored (snd (deleteDBDocumentById h_demo ''d2'' s_media)) = stored s_media"
    "requests (snd (deleteDBDocumentById h_demo ''d2'' s_media))
       = requests s_media @ [ListObjects ''b1'' ''c1/d2/'']"
    using t2 by simp_all
  show ?thesis
    unfolding a b by (simp add: s_media_def nothing_to_delete_def)
qed

subsection \<open>C4: folder names are single, distinct path components\<close>

text \<open>
  C4. For every queried prefix and every output of the listing request, the folder names
  that \<^verbatim>\<open>getDBEntries\<close> returns hold no duplicate and no \<^verbatim>\<open>/\<close>: each is one path
  component, never a full key path. A common prefix that starts with the queried prefix is
  reported as what follows the queried prefix up to the next \<^verbatim>\<open>/\<close>, and every name
  returned comes from a non-empty common prefix of the output in this way.
\<close>

theorem getDBEntries_folder_segments:
  "let p = (case prefix of None \<Rightarrow> [] | Some q \<Rightarrow> q);
       cps = (case CommonPrefixes result of None \<Rightarrow> [] | Some xs \<Rightarrow> xs);
       names = folderNames (entries_of prefix result)
   in distinct names
    \<and> (\<forall>n \<in> set names. CHR ''/'' \<notin> set n)
    \<and> (\<forall>cp \<in> set cps. \<forall>r. Prefix cp = Some (p @ r) \<and> p @ r \<noteq> []
          \<longrightarrow> takeWhile (\<lambda>x. x \<noteq> CHR ''/'') r \<in> set names)
    \<and> (\<forall>n \<in> set names. \<exists>cp \<in> set cps. \<exists>q. Prefix cp = Some q \<and> q \<noteq> []
          \<and> n = takeWhile (\<lambda>x. x \<noteq> CHR ''/'') (replace p [] q))"
proof -
  define p where "p = (case prefix of None \<Rightarrow> [] | Some q \<Rightarrow> q)"
  define cps where "cps = (case CommonPrefixes result of None \<Rightarrow> [] | Some xs \<Rightarrow> xs)"
  define names where "names = folderNames (entries_of prefix result)"
  have names_eq: "names = matchFolders p cps []"
    by (simp add: names_def entries_of_def p_def cps_def split: option.splits)
  have s: "set names = {takeWhile (\<lambda>x. x \<noteq> CHR ''/'') (replace p [] q) | q cp.
                          cp \<in> set cps \<and> Prefix cp = Some q \<and> q \<noteq> []}"
    by (simp add: names_eq set_matchFolders)
  have d: "distinct names"
    by (simp add: names_eq distinct_matchFolders)
  have a: "\<forall>n \<in> set names. CHR ''/'' \<notin> set n"
  proof
    fix n assume "n \<in> set names"
    then obtain q where "n = takeWhile (\<lambda>x. x \<noteq> CHR ''/'') (replace p [] q)"
      using s by auto
    then show "CHR ''/'' \<notin> set n"
      by (auto dest: set_takeWhileD)
  qed
  have b: "\<forall>cp \<in> set cps. \<forall>r. Prefix cp = Some (p @ r) \<and> p @ r \<noteq> []
          \<longrightarrow> takeWhile (\<lambda>x. x \<noteq> CHR ''/'') r \<in> set names"
  proof (intro ballI allI impI)
    fix cp r assume cp: "cp \<in> set cps" and h: "Prefix cp = Some (p @ r) \<and> p @ r \<noteq> []"
    have "takeWhile (\<lambda>x. x \<noteq> CHR ''/'') (replace p [] (p @ r)) \<in> set names"
      unfolding s using cp h by blast
    then show "takeWhile (\<lambda>x. x \<noteq> CHR ''/'') r \<in> set names"
      by (simp add: replace_prefix)
  qed
  have c: "\<forall>n \<in> set names. \<exists>cp \<in> set cps. \<exists>q. Prefix cp = Some q \<and> q \<noteq> []
          \<and> n = takeWhile (\<lambda>x. x \<noteq> CHR ''/'') (replace p [] q)"
    unfolding s by blast
  from d a b c show ?thesis
    unfolding Let_def p_def [symmetric] cps_def [symmetric] names_def [symmetric] by blast
qed

theorem getDBEntries_folder_segments_witness:
  "folderNames (entries_of (Some ''c1/'') listing_demo) = [''u1'', ''u2'']
   \<and> distinct (folderNames (entries_of (Some ''c1/'') listing_demo))
   \<and> ''u2'' \<in> set (folderNames (entries_of (Some ''c1/'') listing_demo))"
proof -
  have e: "folderNames (entries_of (Some ''c1/'') listing_demo) = [''u1'', ''u2'']"
    by (simp add: entries_of_def listing_demo_def set_add_def)
  have m: "\<lparr>Prefix = Some ''c1/u2/''\<rparr> \<in> set (case CommonPrefixes listing_demo of None \<Rightarrow> [] | Some xs \<Rightarrow> xs)"
    by (simp add: listing_demo_def)
  have "distinct (folderNames (entries_of (Some ''c1/'') listing_demo))
      \<and> takeWhile (\<lambda>x. x \<noteq> CHR ''/'') ''u2/'' \<in> set (folderNames (entries_of (Some ''c1/'') listing_demo))"
    using getDBEntries_folder_segments [of "Some ''c1/''" listing_demo] m
    unfolding Let_def
    by (auto dest!: bspec [where x = "\<lparr>Prefix = Some ''c1/u2/''\<rparr>"] spec [where x = "''u2/''"])
  with e show ?thesis by simp
qed

subsection \<open>C5: a listing output without a section\<close>

text \<open>
  C5. With the bucket bound, \<^verbatim>\<open>getDBEntries\<close> returns a result for every state of the
  service; when the output of the listing has no \<^verbatim>\<open>Contents\<close> the objects returned are
  the empty list, and when it has no \<^verbatim>\<open>CommonPrefixes\<close> the folder names are the empty
  list. The same holds of what the method makes of any listing output whatever.
\<close>

theorem getDBEntries_missing_sections:
  assumes "bucketName h = Some b" "b \<noteq> []"
  shows "(\<exists>es. fst (getDBEntries h prefix s) = Inr es
            \<and> (Contents (listing s b prefix (Some CHR ''/'')) = None \<longrightarrow> objects es = [])
            \<and> (CommonPrefixes (listing s b prefix (Some CHR ''/'')) = None
                 \<longrightarrow> folderNames es = []))
       \<and> (\<forall>result. (Contents result = None \<longrightarrow> objects (entries_of prefix result) = [])
                 \<and> (CommonPrefixes result = None
                      \<longrightarrow> folderNames (entries_of prefix result) = []))"
  by (simp add: getDBEntries_bound [OF assms] entries_of_def)

theorem getDBEntries_missing_sections_witness:
  "fst (getDBEntries h_demo (Some ''c1/'') s_empty) = Inr \<lparr>folderNames = [], objects = []\<rparr>"
proof -
  have l: "listing s_empty ''b1'' (Some ''c1/'') (Some CHR ''/'')
             = \<lparr>Contents = None, CommonPrefixes = None\<rparr>"
    by (simp add: listing_def keys_under_def s_empty_def)
  obtain es where es: "fst (getDBEntries h_demo (Some ''c1/'') s_empty) = Inr es"
    "objects es = []" "folderNames es = []"
    using getDBEntries_missing_sections [OF h_demo_bound(1,2), where prefix = "Some ''c1/''"
        and s = s_empty] l
    by auto
  then show ?thesis
    by (cases es) simp
qed

subsection \<open>C6: getDBDocumentMedia\<close>

text \<open>
  C6. The claim is that \<^verbatim>\<open>getDBDocumentMedia(id)\<close> returns the objects stored under
  \<^verbatim>\<open>{collection}/{id}/\<close> other than \<^verbatim>\<open>data.json\<close>. The method lists the prefix
  \<^verbatim>\<open>{collection}/{id}\<close>, without the closing \<^verbatim>\<open>/\<close>, with the delimiter
  \<^verbatim>\<open>/\<close>, so the service rolls every key of the document's folder into one common
  prefix and none is among the contents. In the state \<open>s_media\<close> the folder of
  \<^verbatim>\<open>d1\<close> holds \<^verbatim>\<open>data.json\<close> and \<^verbatim>\<open>photo.png\<close>, and the method returns the empty
  list after listing \<^verbatim>\<open>c1/d1\<close>. The names the lister reports are full keys
  (\<^verbatim>\<open>c1/d1/data.json\<close>), which the comparison with \<^verbatim>\<open>data.json\<close> never excludes.
\<close>

theorem getDBDocumentMedia_misses_media:
  "map fst (keys_under s_media ''b1'' ''c1/d1/'') = [''c1/d1/data.json'', ''c1/d1/photo.png'']
   \<and> getDBDocumentMedia h_demo ''d1'' s_media
       = (Inr [], issue (ListObjectsV2 ''b1'' (Some ''c1/d1'') CHR ''/'') s_media)
   \<and> map name (objects (entries_of (Some ''c1/d1/'')
                            (listing s_media ''b1'' (Some ''c1/d1/'') (Some CHR ''/''))))
       = [''c1/d1/data.json'', ''c1/d1/photo.png'']"
  by (simp add: getDBDocumentMedia_def getDBCollectionEntries_def
      getDBEntries_bound [OF h_demo_bound(1,2)] h_demo_bound invariant_Some
      entries_of_def listing_def keys_under_def rolled_up_def common_prefix_def s_media_def)

text \<open>In every state, no object that the method returns lies under the document's
  prefix, and none is named \<^verbatim>\<open>data.json\<close>.\<close>

lemma getDBDocumentMedia_outside_folder:
  assumes "bucketName h = Some b" "b \<noteq> []" "collectionName h = Some c" "c \<noteq> []"
    and "fst (getDBDocumentMedia h docId s) = Inr found" and "obj \<in> set found"
  shows "\<not> starts_with (c @ ''/'' @ docId @ ''/'') (name obj)"
proof
  assume under: "starts_with (c @ ''/'' @ docId @ ''/'') (name obj)"
  define p where "p = c @ ''/'' @ docId"
  define out where "out = listing s b (Some p) (Some CHR ''/'')"
  have found: "found = filter (\<lambda>obj. name obj \<noteq> ''data.json'') (objects (entries_of (Some p) out))"
    using assms(1-5)
    by (simp add: getDBDocumentMedia_def getDBCollectionEntries_def invariant_Some
        getDBEntries_bound [OF assms(1,2)] p_def out_def)
  then have mem: "name obj \<in> name ` set (objects (entries_of (Some p) out))"
    using assms(6) by auto
  then obtain cs where cs: "Contents out = Some cs"
    by (cases "Contents out") (auto simp: entries_of_def)
  then have "name obj \<in> name ` set (matchObjects cs [])"
    using mem by (simp add: entries_of_def)
  then have "Some (name obj) \<in> Key ` set cs"
    using names_matchObjects [of "name obj" cs "[]"] by simp
  then have leaf: "\<not> rolled_up (Some CHR ''/'') p (name obj)"
    using cs by (auto simp: out_def listing_def Let_def split: if_splits)
  obtain r where r: "name obj = (c @ ''/'' @ docId @ ''/'') @ r"
    using under starts_with_iff by blast
  then have "drop (length p) (name obj) = CHR ''/'' # r"
    by (simp add: p_def)
  with leaf show False
    by (simp add: rolled_up_def)
qed

lemma getDBDocumentMedia_no_data_json:
  assumes "fst (getDBDocumentMedia h docId s) = Inr found" and "obj \<in> set found"
  shows "name obj \<noteq> ''data.json''"
  using assms
  by (auto simp: getDBDocumentMedia_def split: prod.splits sum.splits)

subsection \<open>C7: operations on a handle that is not bound\<close>

text \<open>
  C7. The claim is that every public operation fails on a handle whose bucket or
  collection is not bound. \<^verbatim>\<open>getDBDocumentUrl\<close> checks the bucket only: on a handle
  with the bucket bound and the collection \<^verbatim>\<open>undefined\<close> it returns the signed URL of
  the key \<^verbatim>\<open>undefined/d1/data.json\<close>. \<^verbatim>\<open>S3db.initialize\<close> with the empty string as
  collection name returns a handle whose collection is the empty string, which every
  other operation rejects, and on it \<^verbatim>\<open>getDBDocumentUrl\<close> signs \<^verbatim>\<open>/d1/data.json\<close>.
\<close>

theorem getDBDocumentUrl_unbound_collection:
  "getDBDocumentUrl h_no_collection ''d1'' = Inr (SignedUrl ''b1'' ''undefined/d1/data.json'')
   \<and> fst (initialize cfg_demo ''b1'' [] s_empty)
       = Inr \<lparr>bucketName = Some ''b1'', collectionName = Some []\<rparr>
   \<and> getDBDocumentUrl \<lparr>bucketName = Some ''b1'', collectionName = Some []\<rparr> ''d1''
       = Inr (SignedUrl ''b1'' ''/d1/data.json'')"
  by (simp add: getDBDocumentUrl_def h_no_collection_def invariant_def initialize_def
      getDBBuckets_def s3_listBuckets_def getDBCollectionNames_def getDBEntries_def
      s3_listObjectsV2_def entries_of_def listing_def keys_under_def issue_def s_empty_def
      Let_def)

text \<open>The other operations do fail on a handle that is not bound, and leave the service
  untouched; \<^verbatim>\<open>uploadDBDocumentMedia\<close> does so when it is given at least one file
  (with no file it starts no upload and succeeds).\<close>

lemma unbound_operations_fail:
  assumes "\<not> bound h"
  shows "\<exists>m. getDBDocumentIds h s = (Inl (InvariantFailed m), s)"
    and "\<exists>m. getDBDocumentData rt h docId s = (Inl (InvariantFailed m), s)"
    and "\<exists>m. getDBDocumentMedia h docId s = (Inl (InvariantFailed m), s)"
    and "\<exists>m. uploadDBDocument rt h document u s = (Inl (InvariantFailed m), s)"
    and "\<exists>m. uploadDBDocumentWithMedia rt h document media u s = (Inl (InvariantFailed m), s)"
    and "media \<noteq> [] \<Longrightarrow> \<exists>m. uploadDBDocumentMedia h docId media s = (Inl (InvariantFailed m), s)"
    and "\<exists>m. deleteDBDocumentById h docId s = (Inl (InvariantFailed m), s)"
    and "\<exists>m. deleteDBDocumentMedia h docId mediaNames s = (Inl (InvariantFailed m), s)"
proof -
  show "\<exists>m. getDBDocumentIds h s = (Inl (InvariantFailed m), s)"
    using assms
    by (cases "collectionName h" "''Invalid collectionName''" rule: invariant_cases)
       (auto simp: getDBDocumentIds_def bound_def getDBEntries_unbound_bucket)
  show "\<exists>m. getDBDocumentData rt h docId s = (Inl (InvariantFailed m), s)"
    using assms
    by (cases "collectionName h" "''Invalid collectionName''" rule: invariant_cases)
       (auto simp: getDBDocumentData_def getDBCollectionEntry_def bound_def
          getDBEntry_unbound_bucket)
  show "\<exists>m. getDBDocumentMedia h docId s = (Inl (InvariantFailed m), s)"
    using assms
    by (cases "collectionName h" "''Invalid collectionName''" rule: invariant_cases)
       (auto simp: getDBDocumentMedia_def getDBCollectionEntries_def bound_def
          getDBEntries_unbound_bucket)
  show up: "\<exists>m. uploadDBDocument rt h document u s = (Inl (InvariantFailed m), s)"
    for document
  proof -
    have e: "\<exists>m. uploadDBCollectionEntry h k bd s = (Inl (InvariantFailed m), s)" for k bd
      using uploadDBCollectionEntry_unbound [OF assms] by blast
    obtain m1 where m1: "uploadDBCollectionEntry h (toString (JStr u) @ ''/'') None s
                           = (Inl (InvariantFailed m1), s)"
      using e by blast
    show ?thesis
    proof (cases "supplied_id document")
      case None
      then show ?thesis
        using m1 by (auto simp: uploadDBDocument_def supplied_id_def split: option.splits if_splits)
    next
      case (Some v)
      obtain m2 where "uploadDBCollectionEntry h (toString v @ ''/data.json'')
                     (Some (JSON_stringify rt (JObj (AList.update ''id'' v document)))) s
                   = (Inl (InvariantFailed m2), s)"
        using e by blast
      then show ?thesis
        using Some by (auto simp: uploadDBDocument_def supplied_id_def split: option.splits if_splits)
    qed
  qed
  show "\<exists>m. uploadDBDocumentWithMedia rt h document media u s = (Inl (InvariantFailed m), s)"
    using up [of document]
    by (cases "collectionName h" "''Invalid collectionName''" rule: invariant_cases)
       (auto simp: uploadDBDocumentWithMedia_def)
  show "media \<noteq> [] \<Longrightarrow> \<exists>m. uploadDBDocumentMedia h docId media s = (Inl (InvariantFailed m), s)"
    by (rule uploadDBDocumentMedia_unbound [OF assms])
  show "\<exists>m. deleteDBDocumentById h docId s = (Inl (InvariantFailed m), s)"
    using assms
    by (auto simp: deleteDBDocumentById_def bound_def invariant_def split: option.splits)
  show "\<exists>m. deleteDBDocumentMedia h docId mediaNames s = (Inl (InvariantFailed m), s)"
    using assms
    by (auto simp: deleteDBDocumentMedia_def bound_def invariant_def split: option.splits)
qed

subsection \<open>C8: configuration resolution\<close>

text \<open>
  C8. Each of region, access key id and secret access key is the explicit argument when one
  is given and the environment variable otherwise. If a value is then absent or empty the
  function fails with the credentials error; otherwise it returns the configuration that
  carries exactly the three values. The function takes and returns no state of the storage
  service: it makes no request and has no effect.
\<close>

theorem getS3dbConfig_resolution:
  "let given = (\<lambda>f. case args of None \<Rightarrow> None | Some a \<Rightarrow> f a);
       r = (case given awsRegion of Some v \<Rightarrow> Some v | None \<Rightarrow> S3_DB_REGION env);
       k = (case given awsAccessKeyId of Some v \<Rightarrow> Some v | None \<Rightarrow> S3_DB_ACCESS_KEY_ID env);
       s = (case given awsSecretAccessKey of Some v \<Rightarrow> Some v
            | None \<Rightarrow> S3_DB_SECRET_ACCESS_KEY env)
   in (None \<in> {r, k, s} \<or> Some [] \<in> {r, k, s}
         \<longrightarrow> getS3dbConfig env args = Inl (InvariantFailed credentials_message))
    \<and> (None \<notin> {r, k, s} \<and> Some [] \<notin> {r, k, s}
         \<longrightarrow> (\<exists>cfg. getS3dbConfig env args = Inr cfg \<and> Some (region cfg) = r
                  \<and> Some (accessKeyId (credentials cfg)) = k
                  \<and> Some (secretAccessKey (credentials cfg)) = s))"
  by (auto simp: getS3dbConfig_def default_to_def Let_def split: option.splits)

theorem getS3dbConfig_resolution_witness:
  "getS3dbConfig env_full (Some args_partial)
     = Inr \<lparr>region = ''us-east-1'',
            credentials = \<lparr>accessKeyId = ''AKIDENV'', secretAccessKey = ''env-secret''\<rparr>\<rparr>
   \<and> getS3dbConfig
        \<lparr>S3_DB_REGION = None, S3_DB_ACCESS_KEY_ID = None, S3_DB_SECRET_ACCESS_KEY = None\<rparr> None
     = Inl (InvariantFailed credentials_message)"
proof -
  have a: "\<exists>cfg. getS3dbConfig env_full (Some args_partial) = Inr cfg \<and> Some (region cfg) = Some ''us-east-1''
                  \<and> Some (accessKeyId (credentials cfg)) = Some ''AKIDENV''
                  \<and> Some (secretAccessKey (credentials cfg)) = Some ''env-secret''"
    using getS3dbConfig_resolution [of "Some args_partial" env_full]
    by (simp add: env_full_def args_partial_def Let_def)
  have b: "getS3dbConfig
        \<lparr>S3_DB_REGION = None, S3_DB_ACCESS_KEY_ID = None, S3_DB_SECRET_ACCESS_KEY = None\<rparr> None
     = Inl (InvariantFailed credentials_message)"
    using getS3dbConfig_resolution [of None "\<lparr>S3_DB_REGION = None, S3_DB_ACCESS_KEY_ID = None, S3_DB_SECRET_ACCESS_KEY = None\<rparr>"]
    by (simp add: Let_def)
  from a obtain cfg where c: "getS3dbConfig env_full (Some args_partial) = Inr cfg"
    "region cfg = ''us-east-1''" "accessKeyId (credentials cfg) = ''AKIDENV''"
    "secretAccessKey (credentials cfg) = ''env-secret''" by auto
  have "cfg = \<lparr>region = ''us-east-1'',
            credentials = \<lparr>accessKeyId = ''AKIDENV'', secretAccessKey = ''env-secret''\<rparr>\<rparr>"
    using c(2-4) by (cases cfg, cases "credentials cfg") auto
  with c(1) b show ?thesis by simp
qed

subsection \<open>C9: the content type of an uploaded file\<close>

text \<open>
  C9. The claim is that each file is written to \<^verbatim>\<open>{collection}/{id}/{filename}\<close> with
  a content type given by its final extension. The key is as claimed; the content type is
  \<^verbatim>\<open>image/\<close> followed by the second dot-separated segment of the name:
  \<^verbatim>\<open>photo.final.png\<close> is stored as \<^verbatim>\<open>image/final\<close>, \<^verbatim>\<open>logo.png\<close> as
  \<^verbatim>\<open>image/png\<close>, and \<^verbatim>\<open>README\<close> as \<^verbatim>\<open>image/undefined\<close>. (Lemma
  \<open>uploadDBDocumentMedia_bound\<close> gives the requests for every list of files.)
\<close>

theorem uploadDBDocumentMedia_content_type:
  "requests (snd (uploadDBDocumentMedia h_demo ''d1'' media_demo s_empty))
     = [PutObject ''b1'' ''c1/d1/photo.final.png'' (Some ''PNG'') (Some ''image/final''),
        PutObject ''b1'' ''c1/d1/logo.png'' (Some ''PNG'') (Some ''image/png''),
        PutObject ''b1'' ''c1/d1/README'' (Some ''text'') (Some ''image/undefined'')]"
  by (simp add: media_demo_def uploadDBCollectionMedia_def h_demo_bound invariant_Some
      requests_putObject index_def s_empty_def)

subsection \<open>C10: getDBDocumentData does not validate the document\<close>

text \<open>
  C10. On a bound handle the result of \<^verbatim>\<open>getDBDocumentData(id)\<close> is decided by the
  object at \<^verbatim>\<open>{collection}/{id}/data.json\<close> alone: missing key, the service's error;
  a body that \<^verbatim>\<open>JSON.parse\<close> rejects, the syntax error; otherwise the parsed value,
  whatever its shape.
\<close>

theorem getDBDocumentData_no_validation:
  assumes "bucketName h = Some b" "b \<noteq> []" "collectionName h = Some c" "c \<noteq> []"
  shows "fst (getDBDocumentData rt h docId s) =
           (case map_of (stored s) (b, c @ ''/'' @ docId @ ''/data.json'') of
              None \<Rightarrow> Inl NoSuchKey
            | Some obj \<Rightarrow>
                (case JSON_parse rt (body obj) of None \<Rightarrow> Inl SyntaxError | Some v \<Rightarrow> Inr v))"
  using assms
  by (simp add: getDBDocumentData_def getDBCollectionEntry_def invariant_Some
      getDBEntry_bound [OF assms(1,2)])

theorem getDBDocumentData_no_validation_witness:
  "fst (getDBDocumentData rt_demo h_demo ''d1'' s_media) = Inr (JNum 42)
   \<and> fst (getDBDocumentData rt_demo h_demo ''d2'' s_media) = Inl NoSuchKey"
proof -
  have a: "fst (getDBDocumentData rt_demo h_demo ''d1'' s_media) = Inr (JNum 42)"
    using getDBDocumentData_no_validation [OF h_demo_bound, where rt = rt_demo
        and docId = "''d1''" and s = s_media]
    by (simp add: s_media_def rt_demo_def text_demo_def text_fixed_def)
  have b: "fst (getDBDocumentData rt_demo h_demo ''d2'' s_media) = Inl NoSuchKey"
    using getDBDocumentData_no_validation [OF h_demo_bound, where rt = rt_demo
        and docId = "''d2''" and s = s_media]
    by (simp add: s_media_def)
  from a b show ?thesis by simp
qed

end
